theory Spec2Isabelle
  imports Complex_Main
begin

section \<open>Values, errors and responses\<close>

text \<open>
  The service is one Python module, \<^verbatim>\<open>main.py\<close>. It calls the metadata provider
  (\<^verbatim>\<open>yt_dlp.YoutubeDL(...).extract_info\<close>), which is outside the module: here it is a
  parameter of every operation, a function from the requested locator to the outcome of the
  call. An outcome is \<open>Inl e\<close> when the call raises \<open>e\<close> and \<open>Inr r\<close> when it returns \<open>r\<close>.
  What the module prints and logs is left out. The handlers are coroutines without an
  \<^verbatim>\<open>await\<close> between their reads and writes of the cache, so each call runs as one step.

  Exceptions the module can meet. \<open>ProviderError\<close> is whatever the provider raises;
  the others are raised by Python itself on the provider's data (\<^verbatim>\<open>info['formats']\<close> on
  \<^verbatim>\<open>None\<close>, a missing key, \<^verbatim>\<open>[0]\<close> on an empty list) or by the pydantic models
  \<^verbatim>\<open>Song\<close> and \<^verbatim>\<open>SongResponse\<close> on a field that is not a string.
\<close>

datatype exn =
    ProviderError string
  | TypeError
  | KeyError string
  | IndexError
  | ValidationError

text \<open>
  \<^verbatim>\<open>HTTPException(status_code=..., detail=...)\<close>: the detail is either \<^verbatim>\<open>str(e)\<close> of a
  caught exception or a fixed message.
\<close>

datatype detail = Of_exception exn | Message string

datatype http_error = HTTPException nat detail

text \<open>
  A scalar the provider puts under a key of an entry: \<^verbatim>\<open>None\<close>, a string, an integer,
  or a float. A float is carried as its \<^verbatim>\<open>repr\<close>, the only thing the module ever takes
  of one (\<^verbatim>\<open>str\<close> of a float is its \<^verbatim>\<open>repr\<close>).
\<close>

datatype pyval = PNone | PStr string | PInt int | PFloat string

text \<open>Python truthiness, as \<^verbatim>\<open>not x\<close> and \<^verbatim>\<open>x or y\<close> read it.\<close>

fun truthy :: "pyval \<Rightarrow> bool" where
  "truthy PNone = False"
| "truthy (PStr s) = (s \<noteq> [])"
| "truthy (PInt i) = (i \<noteq> 0)"
| "truthy (PFloat r) = (r \<noteq> ''0.0'' \<and> r \<noteq> ''-0.0'')"

definition digit :: "nat \<Rightarrow> char" where
  "digit d = ''0123456789'' ! d"

fun str_nat :: "nat \<Rightarrow> string" where
  "str_nat n = (if n < 10 then [digit n] else str_nat (n div 10) @ [digit (n mod 10)])"

definition str_int :: "int \<Rightarrow> string" where
  "str_int i = (if i < 0 then CHR ''-'' # str_nat (nat (- i)) else str_nat (nat i))"

text \<open>\<^verbatim>\<open>str(x)\<close>, also what an f-string puts for \<^verbatim>\<open>{x}\<close>.\<close>

fun py_str :: "pyval \<Rightarrow> string" where
  "py_str PNone = ''None''"
| "py_str (PStr s) = s"
| "py_str (PInt i) = str_int i"
| "py_str (PFloat r) = r"

text \<open>
  A provider entry is a dictionary from field names to scalars, kept as an association list;
  \<^verbatim>\<open>d.get(k, default)\<close> is \<open>dict_get\<close>.
\<close>

type_synonym pydict = "(string \<times> pyval) list"

definition dict_get :: "pydict \<Rightarrow> string \<Rightarrow> pyval \<Rightarrow> pyval" where
  "dict_get d k dflt = (case map_of d k of None \<Rightarrow> dflt | Some v \<Rightarrow> v)"

section \<open>Stream resolution\<close>

subsection \<open>Delivery formats\<close>

text \<open>
  One element of \<^verbatim>\<open>info['formats']\<close>. \<^verbatim>\<open>f.get('acodec')\<close> and \<^verbatim>\<open>f.get('vcodec')\<close>
  give \<^verbatim>\<open>None\<close> for a missing key, so \<open>None\<close> stands for a field that is missing (or
  null). \<open>quality\<close> is \<open>None\<close> when the key is missing (the sort key then defaults to 0);
  a present quality is a number, kept as a rational, which holds every integer and every
  finite float exactly. \<open>format_url\<close> is the key \<^verbatim>\<open>'url'\<close>, \<open>None\<close> when the key is
  missing (\<^verbatim>\<open>best_audio['url']\<close> then raises \<^verbatim>\<open>KeyError\<close>).
\<close>

record format =
  acodec :: "string option"
  vcodec :: "string option"
  quality :: "rat option"
  format_url :: "string option"

text \<open>What \<^verbatim>\<open>extract_info\<close> returns for one video: \<open>formats\<close> is \<open>None\<close> when the key is missing.\<close>

record info =
  formats :: "format list option"

text \<open>
  Line 167:
  \<^verbatim>\<open>audio_formats = [f for f in formats if f.get('acodec') != 'none' and f.get('vcodec') == 'none']\<close>
\<close>

definition audio_formats :: "format list \<Rightarrow> format list" where
  "audio_formats fs = filter (\<lambda>f. acodec f \<noteq> Some ''none'' \<and> vcodec f = Some ''none'') fs"

text \<open>The sort key of line 168: \<^verbatim>\<open>lambda x: x.get('quality', 0)\<close>.\<close>

definition quality_key :: "format \<Rightarrow> rat" where
  "quality_key x = (case quality x of None \<Rightarrow> 0 | Some q \<Rightarrow> q)"

text \<open>
  \<^verbatim>\<open>sorted(xs, key=key, reverse=True)\<close>. Python's sort is stable, and with
  \<^verbatim>\<open>reverse=True\<close> it still keeps elements of equal key in their original order: the list
  is reversed, sorted ascending by the stable sort, and reversed again.
\<close>

definition py_sorted_reverse :: "('a \<Rightarrow> 'k::linorder) \<Rightarrow> 'a list \<Rightarrow> 'a list" where
  "py_sorted_reverse key xs = rev (sort_key key (rev xs))"

text \<open>
  Lines 168-169: \<^verbatim>\<open>best_audio = sorted(audio_formats, ...)[0]\<close> raises \<^verbatim>\<open>IndexError\<close> on
  an empty list, and \<^verbatim>\<open>best_audio['url']\<close> raises \<^verbatim>\<open>KeyError\<close> without the key.
\<close>

definition best_audio :: "format list \<Rightarrow> exn + format" where
  "best_audio afs =
     (case py_sorted_reverse quality_key afs of
        [] \<Rightarrow> Inl IndexError
      | b # _ \<Rightarrow> Inr b)"

definition select_url :: "format list \<Rightarrow> exn + string" where
  "select_url afs =
     (case best_audio afs of
        Inl e \<Rightarrow> Inl e
      | Inr b \<Rightarrow> (case format_url b of None \<Rightarrow> Inl (KeyError ''url'') | Some u \<Rightarrow> Inr u))"

text \<open>
  Lines 165-169, the body of the \<^verbatim>\<open>try\<close> up to the URL, on the outcome of the provider
  call: \<^verbatim>\<open>info['formats']\<close> raises \<^verbatim>\<open>TypeError\<close> on \<^verbatim>\<open>None\<close> and \<^verbatim>\<open>KeyError\<close> without
  the key.
\<close>

definition stream_url_of :: "exn + info option \<Rightarrow> exn + string" where
  "stream_url_of outcome =
     (case outcome of
        Inl e \<Rightarrow> Inl e
      | Inr None \<Rightarrow> Inl TypeError
      | Inr (Some i) \<Rightarrow>
          (case formats i of
             None \<Rightarrow> Inl (KeyError ''formats'')
           | Some fs \<Rightarrow> select_url (audio_formats fs)))"

subsection \<open>The cache\<close>

text \<open>
  \<^verbatim>\<open>datetime\<close> values are counted in microseconds, the resolution of Python's
  \<^verbatim>\<open>datetime\<close> and \<^verbatim>\<open>timedelta\<close>; \<^verbatim>\<open>CACHE_TIMEOUT = timedelta(minutes=30)\<close>.
\<close>

type_synonym datetime = int

definition CACHE_TIMEOUT :: int where
  "CACHE_TIMEOUT = 30 * 60 * 1000000"

text \<open>
  The module's state: the dictionary \<^verbatim>\<open>song_cache\<close>, from a key to the pair of the cached
  URL and the time it was stored, and the log of the locators the provider was asked for
  (the provider call is the module's other effect).
\<close>

record state =
  song_cache :: "string \<rightharpoonup> string \<times> datetime"
  provider_calls :: "string list"

text \<open>
  Lines 158-161, the cache check at time \<open>now\<close>: a hit gives the cached URL, and anything
  else falls through to the provider.
\<close>

definition cache_check :: "(string \<rightharpoonup> string \<times> datetime) \<Rightarrow> string \<Rightarrow> datetime \<Rightarrow> string option" where
  "cache_check cache k now =
     (case cache k of
        None \<Rightarrow> None
      | Some (cached_data, timestamp) \<Rightarrow>
          if now - timestamp < CACHE_TIMEOUT then Some cached_data else None)"

text \<open>Line 157: \<^verbatim>\<open>cache_key = f"stream_{video_id}"\<close>; line 165 builds the watch-page URL.\<close>

definition cache_key :: "string \<Rightarrow> string" where
  "cache_key vid = ''stream_'' @ vid"

definition watch_url :: "string \<Rightarrow> string" where
  "watch_url vid = ''https://music.youtube.com/watch?v='' @ vid"

text \<open>
  \<^verbatim>\<open>fetch_stream_url(video_id)\<close>. \<open>extract_info\<close> is the provider at this call,
  \<open>now\<close> the clock read by the cache check and \<open>now'\<close> the clock read when the result is
  stored. Every exception of the \<^verbatim>\<open>try\<close> body becomes \<^verbatim>\<open>HTTPException(404)\<close>.
\<close>

definition fetch_stream_url ::
  "(string \<Rightarrow> exn + info option) \<Rightarrow> datetime \<Rightarrow> datetime \<Rightarrow> string \<Rightarrow> state
     \<Rightarrow> (http_error + string) \<times> state" where
  "fetch_stream_url extract_info now now' vid s =
     (case cache_check (song_cache s) (cache_key vid) now of
        Some cached_data \<Rightarrow> (Inr cached_data, s)
      | None \<Rightarrow>
          (let s1 = s\<lparr>provider_calls := provider_calls s @ [watch_url vid]\<rparr> in
           case stream_url_of (extract_info (watch_url vid)) of
             Inl e \<Rightarrow> (Inl (HTTPException 404 (Of_exception e)), s1)
           | Inr stream_url \<Rightarrow>
               (Inr stream_url,
                s1\<lparr>song_cache := (song_cache s1)(cache_key vid \<mapsto> (stream_url, now'))\<rparr>)))"


section \<open>Catalogue aggregation and search\<close>

subsection \<open>Tracks\<close>

text \<open>The pydantic models \<^verbatim>\<open>Song\<close> and \<^verbatim>\<open>SongResponse\<close>: every field is a \<^verbatim>\<open>str\<close>.\<close>

record Song =
  title :: string
  url :: string
  thumbnail :: string
  duration :: string
  video_id :: string

record SongResponse =
  artist_url :: string
  artist_name :: string
  songs :: "Song list"

text \<open>
  Validation of a \<^verbatim>\<open>str\<close> field by the model's constructor: a string is taken as it is, and
  a value that is not a string raises \<^verbatim>\<open>ValidationError\<close> (pydantic 2 converts no number to a
  string).
\<close>

fun str_field :: "pyval \<Rightarrow> exn + string" where
  "str_field (PStr s) = Inr s"
| "str_field v = Inl ValidationError"

text \<open>\<^verbatim>\<open>a or b\<close>.\<close>

definition py_or :: "pyval \<Rightarrow> pyval \<Rightarrow> pyval" where
  "py_or a b = (if truthy a then a else b)"

text \<open>
  Lines 118-124 (and 197-203, the same text): the \<^verbatim>\<open>Song(...)\<close> built from an entry and its
  \<^verbatim>\<open>video_id\<close>. The f-string of the \<^verbatim>\<open>url\<close> is the one of line 165, \<open>watch_url\<close>, on the
  text of the id.
\<close>

definition make_song :: "pydict \<Rightarrow> pyval \<Rightarrow> exn + Song" where
  "make_song entry vid =
     (case str_field (dict_get entry ''title'' (PStr '''')) of
        Inl e \<Rightarrow> Inl e
      | Inr t \<Rightarrow>
     (case str_field (py_or (dict_get entry ''thumbnail'' (PStr ''''))
               (PStr (''https://i.ytimg.com/vi/'' @ py_str vid @ ''/default.jpg''))) of
        Inl e \<Rightarrow> Inl e
      | Inr th \<Rightarrow>
     (case str_field vid of
        Inl e \<Rightarrow> Inl e
      | Inr v \<Rightarrow>
          Inr \<lparr>title = t,
               url = watch_url (py_str vid),
               thumbnail = th,
               duration = py_str (dict_get entry ''duration'' (PStr ''0'')),
               video_id = v\<rparr>)))"

text \<open>
  Lines 110-125 (and 189-204): the loop over the entries, with the list \<^verbatim>\<open>songs\<close> it appends
  to. An entry is \<open>None\<close> for \<^verbatim>\<open>None\<close> and \<open>Some []\<close> for the empty dictionary, both skipped
  by \<^verbatim>\<open>if not entry\<close>; an exception of \<^verbatim>\<open>Song(...)\<close> leaves the loop.
\<close>

fun songs_loop :: "pydict option list \<Rightarrow> Song list \<Rightarrow> exn + Song list" where
  "songs_loop [] sgs = Inr sgs"
| "songs_loop (entry # rest) sgs =
     (case entry of
        None \<Rightarrow> songs_loop rest sgs
      | Some e \<Rightarrow>
          if e = [] then songs_loop rest sgs
          else if \<not> truthy (dict_get e ''id'' (PStr '''')) then songs_loop rest sgs
          else (case make_song e (dict_get e ''id'' (PStr '''')) of
                  Inl ex \<Rightarrow> Inl ex
                | Inr song \<Rightarrow> songs_loop rest (sgs @ [song])))"

subsection \<open>The provider's listing\<close>

text \<open>
  What \<^verbatim>\<open>extract_info\<close> returns for a channel or a search, when it is a non-empty
  dictionary: \<open>channel\<close> and \<open>entries\<close> are \<open>None\<close> when the key is missing, and
  \<open>entries\<close>, when present, is a list. The provider's outcome is \<open>Inr None\<close> for a result
  that \<^verbatim>\<open>not result\<close> rejects (\<^verbatim>\<open>None\<close> or an empty dictionary).
\<close>

record listing =
  channel :: "pyval option"
  entries :: "pydict option list option"

text \<open>
  Lines 97-131, the body of the inner \<^verbatim>\<open>try\<close> for one artist: \<open>Inl e\<close> when it raises,
  \<open>Inr None\<close> when it leaves by \<^verbatim>\<open>continue\<close> without a response, \<open>Inr (Some r)\<close> when it
  appends \<open>r\<close> to \<^verbatim>\<open>responses\<close>.
\<close>

definition artist_songs :: "(string \<Rightarrow> exn + listing option) \<Rightarrow> string \<Rightarrow> exn + SongResponse option" where
  "artist_songs extract_info a_url =
     (case extract_info a_url of
        Inl e \<Rightarrow> Inl e
      | Inr None \<Rightarrow> Inr None
      | Inr (Some result) \<Rightarrow>
          (case (case entries result of None \<Rightarrow> Inr [] | Some es \<Rightarrow> songs_loop es []) of
             Inl e \<Rightarrow> Inl e
           | Inr sgs \<Rightarrow>
               (case str_field (case channel result of None \<Rightarrow> PStr ''Unknown Artist'' | Some c \<Rightarrow> c) of
                  Inl e \<Rightarrow> Inl e
                | Inr name \<Rightarrow> Inr (Some \<lparr>artist_url = a_url, artist_name = name, songs = sgs\<rparr>))))"

text \<open>
  Lines 95-134, the loop over the artists with the list \<^verbatim>\<open>responses\<close> it appends to. The
  inner \<^verbatim>\<open>except Exception\<close> prints and continues.
\<close>

fun artist_loop :: "(string \<Rightarrow> exn + listing option) \<Rightarrow> string list \<Rightarrow> SongResponse list \<Rightarrow> SongResponse list" where
  "artist_loop extract_info [] responses = responses"
| "artist_loop extract_info (a_url # rest) responses =
     (case artist_songs extract_info a_url of
        Inl artist_error \<Rightarrow> artist_loop extract_info rest responses
      | Inr None \<Rightarrow> artist_loop extract_info rest responses
      | Inr (Some r) \<Rightarrow> artist_loop extract_info rest (responses @ [r]))"

definition ARTIST_URLS :: "string list" where
  "ARTIST_URLS =
     [''https://music.youtube.com/channel/UCJls2FMEbRYxi28jcuKe2vA'',
      ''https://music.youtube.com/channel/UC527A_XB_c7XftocVOIVNeA'',
      ''https://music.youtube.com/channel/UCRI-Ds5eY70A4oeHggAFBbg'',
      ''https://music.youtube.com/channel/UCZn4r7heNOPY-C43YIywnVA'',
      ''https://music.youtube.com/channel/UCn0hl0XZ3bFREX2SCBZK3Pw'',
      ''https://music.youtube.com/channel/UCYBtTmBP2QgHgalgsv2v5LA'',
      ''https://music.youtube.com/channel/UCUn9Xjvg8fwqpa58-_XO6zw'']"

text \<open>
  \<^verbatim>\<open>get_artist_songs\<close>, with the list of artists as a parameter. The outer \<^verbatim>\<open>except\<close>
  (status 500) has nothing to catch, the inner one having caught every \<^verbatim>\<open>Exception\<close>; an
  empty \<^verbatim>\<open>responses\<close> raises \<^verbatim>\<open>HTTPException(404)\<close>.
\<close>

definition get_artist_songs_of ::
  "string list \<Rightarrow> (string \<Rightarrow> exn + listing option) \<Rightarrow> http_error + SongResponse list" where
  "get_artist_songs_of urls extract_info =
     (let responses = artist_loop extract_info urls [] in
      if responses = [] then Inl (HTTPException 404 (Message ''No artists or songs found''))
      else Inr responses)"

definition get_artist_songs :: "(string \<Rightarrow> exn + listing option) \<Rightarrow> http_error + SongResponse list" where
  "get_artist_songs = get_artist_songs_of ARTIST_URLS"

text \<open>\<^verbatim>\<open>search_songs(query)\<close>: every exception of the body becomes \<^verbatim>\<open>HTTPException(500)\<close>.\<close>

definition search_songs :: "(string \<Rightarrow> exn + listing option) \<Rightarrow> string \<Rightarrow> http_error + Song list" where
  "search_songs extract_info query =
     (case extract_info (''ytsearch10:'' @ query) of
        Inl e \<Rightarrow> Inl (HTTPException 500 (Of_exception e))
      | Inr None \<Rightarrow> Inr []
      | Inr (Some results) \<Rightarrow>
          (case entries results of
             None \<Rightarrow> Inr []
           | Some es \<Rightarrow>
               (case songs_loop es [] of
                  Inl e \<Rightarrow> Inl (HTTPException 500 (Of_exception e))
                | Inr sgs \<Rightarrow> Inr sgs)))"

section \<open>The specification's notions\<close>

text \<open>
  The glossary's audio-only format: a format that carries an audio codec (present and not
  \<^verbatim>\<open>"none"\<close>) and no video codec (absent or \<^verbatim>\<open>"none"\<close>).
\<close>

definition spec_audio_only :: "format \<Rightarrow> bool" where
  "spec_audio_only f =
     ((acodec f \<noteq> None \<and> acodec f \<noteq> Some ''none'') \<and> (vcodec f = None \<or> vcodec f = Some ''none''))"

text \<open>
  An entry that is kept: it is not null, not empty, and has an id (a value under \<^verbatim>\<open>id\<close>
  that is not null, empty or zero). \<open>entry_id\<close> is that id as text.
\<close>

definition has_id :: "pydict option \<Rightarrow> bool" where
  "has_id entry =
     (case entry of None \<Rightarrow> False | Some e \<Rightarrow> e \<noteq> [] \<and> truthy (dict_get e ''id'' (PStr '''')))"

definition entry_id :: "pydict option \<Rightarrow> string" where
  "entry_id entry = (case entry of None \<Rightarrow> [] | Some e \<Rightarrow> py_str (dict_get e ''id'' (PStr '''')))"

text \<open>
  An entry of the shape the specification gives the provider's entries: the id, the title
  and the thumbnail, where present, are strings.
\<close>

definition string_or_absent :: "pydict \<Rightarrow> string \<Rightarrow> bool" where
  "string_or_absent e k = (case map_of e k of None \<Rightarrow> True | Some (PStr s) \<Rightarrow> True | Some v \<Rightarrow> False)"

definition well_typed :: "pydict option \<Rightarrow> bool" where
  "well_typed entry =
     (case entry of
        None \<Rightarrow> True
      | Some e \<Rightarrow> string_or_absent e ''id'' \<and> string_or_absent e ''title'' \<and> string_or_absent e ''thumbnail'')"

text \<open>
  A locator yields a batch when its \<^verbatim>\<open>try\<close> body reaches \<^verbatim>\<open>responses.append\<close>;
  \<open>entries_of\<close> is the list of entries of a listing, empty without the key.
\<close>

definition yields_batch :: "(string \<Rightarrow> exn + listing option) \<Rightarrow> string \<Rightarrow> bool" where
  "yields_batch extract_info a_url =
     (case artist_songs extract_info a_url of Inr (Some r) \<Rightarrow> True | _ \<Rightarrow> False)"

definition entries_of :: "listing \<Rightarrow> pydict option list" where
  "entries_of result = (case entries result of None \<Rightarrow> [] | Some es \<Rightarrow> es)"

section \<open>Sample data\<close>

text \<open>Formats, providers and a state for the worked instances below.\<close>

abbreviation opus_low :: format where
  "opus_low \<equiv> \<lparr>acodec = Some ''opus'', vcodec = Some ''none'', quality = Some 3,
                format_url = Some ''https://cdn.example/low.webm''\<rparr>"

abbreviation opus_high :: format where
  "opus_high \<equiv> \<lparr>acodec = Some ''opus'', vcodec = Some ''none'', quality = Some (7 / 2),
                 format_url = Some ''https://cdn.example/high.webm''\<rparr>"

abbreviation m4a_high :: format where
  "m4a_high \<equiv> \<lparr>acodec = Some ''mp4a.40.2'', vcodec = Some ''none'', quality = Some (7 / 2),
                format_url = Some ''https://cdn.example/high.m4a''\<rparr>"

abbreviation video_only :: format where
  "video_only \<equiv> \<lparr>acodec = Some ''none'', vcodec = Some ''avc1.64001F'', quality = Some 9,
                  format_url = Some ''https://cdn.example/video.mp4''\<rparr>"

abbreviation muxed :: format where
  "muxed \<equiv> \<lparr>acodec = Some ''mp4a.40.2'', vcodec = Some ''avc1.42001E'', quality = Some 6,
             format_url = Some ''https://cdn.example/muxed.mp4''\<rparr>"

abbreviation no_vcodec_field :: format where
  "no_vcodec_field \<equiv> \<lparr>acodec = Some ''opus'', vcodec = None, quality = Some 3,
                       format_url = Some ''https://cdn.example/a.webm''\<rparr>"

abbreviation no_acodec_field :: format where
  "no_acodec_field \<equiv> \<lparr>acodec = None, vcodec = Some ''none'', quality = Some 3,
                       format_url = Some ''https://cdn.example/b.bin''\<rparr>"

abbreviation returns_formats :: "format list \<Rightarrow> string \<Rightarrow> exn + info option" where
  "returns_formats fs \<equiv> (\<lambda>locator. Inr (Some \<lparr>formats = Some fs\<rparr>))"

abbreviation provider_down :: "string \<Rightarrow> exn + info option" where
  "provider_down \<equiv> (\<lambda>locator. Inl (ProviderError ''network unreachable''))"

abbreviation empty_state :: state where
  "empty_state \<equiv> \<lparr>song_cache = Map.empty, provider_calls = []\<rparr>"

text \<open>Entries, listings and providers for the aggregator and the search.\<close>

abbreviation first_track :: "pydict option" where
  "first_track \<equiv> Some [(''id'', PStr ''dQw4w9WgXcQ''), (''title'', PStr ''First''), (''duration'', PInt 215)]"

abbreviation second_track :: "pydict option" where
  "second_track \<equiv> Some [(''id'', PStr ''9bZkp7q19f0''), (''title'', PStr ''Second''),
                         (''thumbnail'', PStr ''https://img.example/second.jpg'')]"

abbreviation entry_without_id :: "pydict option" where
  "entry_without_id \<equiv> Some [(''title'', PStr ''Untitled''), (''duration'', PInt 90)]"

abbreviation entry_with_null_duration :: "pydict option" where
  "entry_with_null_duration \<equiv> Some [(''id'', PStr ''abc''), (''title'', PStr ''T''), (''duration'', PNone)]"

definition returns_entries :: "pydict option list \<Rightarrow> string \<Rightarrow> exn + listing option" where
  "returns_entries es locator = Inr (Some \<lparr>channel = None, entries = Some es\<rparr>)"

definition three_sources :: "string \<Rightarrow> exn + listing option" where
  "three_sources locator =
     (if locator = ''source-1'' then Inr (Some \<lparr>channel = Some (PStr ''One''), entries = Some [first_track]\<rparr>)
      else if locator = ''source-2'' then Inl (ProviderError ''timed out'')
      else Inr (Some \<lparr>channel = None, entries = Some [None, second_track, entry_without_id, first_track]\<rparr>))"

abbreviation first_song :: Song where
  "first_song \<equiv> \<lparr>title = ''First'', url = ''https://music.youtube.com/watch?v=dQw4w9WgXcQ'',
                  thumbnail = ''https://i.ytimg.com/vi/dQw4w9WgXcQ/default.jpg'',
                  duration = ''215'', video_id = ''dQw4w9WgXcQ''\<rparr>"

abbreviation second_song :: Song where
  "second_song \<equiv> \<lparr>title = ''Second'', url = ''https://music.youtube.com/watch?v=9bZkp7q19f0'',
                   thumbnail = ''https://img.example/second.jpg'',
                   duration = ''0'', video_id = ''9bZkp7q19f0''\<rparr>"

section \<open>Auxiliary facts\<close>

subsection \<open>The descending stable sort\<close>

lemma first_satisfying:
  "\<exists>x\<in>set xs. P x \<Longrightarrow>
     \<exists>i<length xs. hd (filter P xs) = xs ! i \<and> P (xs ! i) \<and> (\<forall>j<i. \<not> P (xs ! j))"
proof (induction xs)
  case Nil
  then show ?case by simp
next
  case (Cons x xs)
  show ?case
  proof (cases "P x")
    case True
    then have "hd (filter P (x # xs)) = (x # xs) ! 0 \<and> P ((x # xs) ! 0) \<and> (\<forall>j<0. \<not> P ((x # xs) ! j))"
      by simp
    then show ?thesis by blast
  next
    case False
    with Cons.prems have "\<exists>y\<in>set xs. P y" by auto
    from Cons.IH [OF this] obtain i where i: "i < length xs" "hd (filter P xs) = xs ! i"
      "P (xs ! i)" "\<forall>j<i. \<not> P (xs ! j)" by blast
    have "\<forall>j<Suc i. \<not> P ((x # xs) ! j)"
      using False i(4) by (auto simp: nth_Cons split: nat.splits)
    with i False have "Suc i < length (x # xs) \<and> hd (filter P (x # xs)) = (x # xs) ! Suc i \<and>
        P ((x # xs) ! Suc i) \<and> (\<forall>j<Suc i. \<not> P ((x # xs) ! j))"
      by simp
    then show ?thesis by blast
  qed
qed

lemma last_filter_sat:
  "xs \<noteq> [] \<Longrightarrow> P (last xs) \<Longrightarrow> last (filter P xs) = last xs"
  by (induction xs) (auto simp: filter_empty_conv)

lemma sorted_key_le_last:
  assumes "sorted (map f ys)" "y \<in> set ys"
  shows "f y \<le> f (last ys)"
proof -
  from assms(2) obtain i where i: "i < length ys" "ys ! i = y" by (auto simp: in_set_conv_nth)
  then have ne: "ys \<noteq> []" by auto
  have "map f ys ! i \<le> map f ys ! (length ys - 1)"
    using assms(1) i(1) by (intro sorted_nth_mono) auto
  then show ?thesis using i ne by (simp add: last_conv_nth)
qed

lemma hd_py_sorted_reverse:
  assumes "xs \<noteq> []"
  shows "hd (py_sorted_reverse f xs) = hd (filter (\<lambda>y. f y = f (hd (py_sorted_reverse f xs))) xs)"
    and "\<forall>x\<in>set xs. f x \<le> f (hd (py_sorted_reverse f xs))"
    and "hd (py_sorted_reverse f xs) \<in> set xs"
proof -
  let ?ys = "sort_key f (rev xs)"
  let ?m = "last ?ys"
  have ne: "?ys \<noteq> []" using assms by (metis length_sort length_rev length_0_conv)
  have hd_eq: "hd (py_sorted_reverse f xs) = ?m"
    by (simp add: py_sorted_reverse_def hd_rev)
  have "filter (\<lambda>y. f y = f ?m) ?ys = rev (filter (\<lambda>y. f y = f ?m) xs)"
    by (simp add: sort_key_stable rev_filter)
  moreover have "last (filter (\<lambda>y. f y = f ?m) ?ys) = ?m"
    using ne by (simp add: last_filter_sat)
  ultimately have "?m = last (rev (filter (\<lambda>y. f y = f ?m) xs))" by simp
  moreover have "filter (\<lambda>y. f y = f ?m) xs \<noteq> []"
  proof -
    have "?m \<in> set xs" using ne last_in_set [OF ne] by simp
    then show ?thesis by (auto simp: filter_empty_conv)
  qed
  ultimately have "?m = hd (filter (\<lambda>y. f y = f ?m) xs)" by (simp add: last_rev)
  then show "hd (py_sorted_reverse f xs) = hd (filter (\<lambda>y. f y = f (hd (py_sorted_reverse f xs))) xs)"
    using hd_eq by simp
  have "sorted (map f ?ys)" by simp
  then have "\<forall>y\<in>set ?ys. f y \<le> f ?m" by (auto intro: sorted_key_le_last)
  then show "\<forall>x\<in>set xs. f x \<le> f (hd (py_sorted_reverse f xs))" using hd_eq by simp
  show "hd (py_sorted_reverse f xs) \<in> set xs" using hd_eq last_in_set [OF ne] by simp
qed

lemma py_sorted_reverse_first_max:
  assumes "xs \<noteq> []"
  shows "\<exists>i<length xs. hd (py_sorted_reverse f xs) = xs ! i \<and>
           (\<forall>j<length xs. f (xs ! j) \<le> f (xs ! i)) \<and> (\<forall>j<i. f (xs ! j) < f (xs ! i))"
proof -
  let ?b = "hd (py_sorted_reverse f xs)"
  have "\<exists>x\<in>set xs. f x = f ?b" using hd_py_sorted_reverse(3) [OF assms] by blast
  from first_satisfying [of xs "\<lambda>y. f y = f ?b", OF this]
  obtain i where i: "i < length xs" "hd (filter (\<lambda>y. f y = f ?b) xs) = xs ! i"
    "f (xs ! i) = f ?b" "\<forall>j<i. f (xs ! j) \<noteq> f ?b" by blast
  have b: "?b = xs ! i" using hd_py_sorted_reverse(1) [OF assms, of f] i(2) by simp
  have le: "\<forall>j<length xs. f (xs ! j) \<le> f ?b"
    using hd_py_sorted_reverse(2) [OF assms, of f] by simp
  have "\<forall>j<i. f (xs ! j) < f ?b"
  proof (intro allI impI)
    fix j assume "j < i"
    then have "f (xs ! j) \<noteq> f ?b" "f (xs ! j) \<le> f ?b" using i(1,4) le by auto
    then show "f (xs ! j) < f ?b" by simp
  qed
  with b le i(1) show ?thesis by auto
qed

lemma py_sorted_reverse_Nil: "py_sorted_reverse f xs = [] \<longleftrightarrow> xs = []"
  by (metis py_sorted_reverse_def length_sort length_rev length_0_conv)

subsection \<open>The cache check and the two paths of the resolver\<close>

lemma cache_check_expired:
  "cache k = Some (cached, T) \<Longrightarrow> T + CACHE_TIMEOUT \<le> now \<Longrightarrow> cache_check cache k now = None"
  by (simp add: cache_check_def)

lemma cache_check_fresh:
  "cache k = Some (cached, T) \<Longrightarrow> now - T < CACHE_TIMEOUT \<Longrightarrow> cache_check cache k now = Some cached"
  by (simp add: cache_check_def)

lemma cache_check_absent:
  "cache k = None \<Longrightarrow> cache_check cache k now = None"
  by (simp add: cache_check_def)

lemma cache_check_Some:
  "cache_check cache k now = Some u \<Longrightarrow> \<exists>T. cache k = Some (u, T) \<and> now - T < CACHE_TIMEOUT"
  by (auto simp: cache_check_def split: option.splits if_splits)

lemma fetch_hit:
  "cache_check (song_cache s) (cache_key vid) now = Some u \<Longrightarrow>
     fetch_stream_url P now now' vid s = (Inr u, s)"
  by (simp add: fetch_stream_url_def)

lemma fetch_miss:
  "cache_check (song_cache s) (cache_key vid) now = None \<Longrightarrow>
     fetch_stream_url P now now' vid s =
       (case stream_url_of (P (watch_url vid)) of
          Inl e \<Rightarrow> (Inl (HTTPException 404 (Of_exception e)),
                    s\<lparr>provider_calls := provider_calls s @ [watch_url vid]\<rparr>)
        | Inr stream_url \<Rightarrow>
            (Inr stream_url,
             s\<lparr>provider_calls := provider_calls s @ [watch_url vid],
               song_cache := (song_cache s)(cache_key vid \<mapsto> (stream_url, now'))\<rparr>))"
  by (simp add: fetch_stream_url_def Let_def split: sum.splits)

section \<open>The claims on stream resolution\<close>

text \<open>
  Claim C1, as the code has it. The filter of line 167 keeps a format exactly when its audio
  codec is not the string \<^verbatim>\<open>"none"\<close>, which a missing audio codec satisfies, and its video
  codec is present and equal to \<^verbatim>\<open>"none"\<close>, which a missing video codec does not; the kept
  formats stay in their order. On a list whose formats all carry both codec fields these are
  exactly the audio-only formats of the glossary.
\<close>

theorem audio_formats_codec_tests:
  "audio_formats fs =
     filter (\<lambda>f. (case acodec f of None \<Rightarrow> True | Some a \<Rightarrow> a \<noteq> ''none'') \<and>
                 (case vcodec f of None \<Rightarrow> False | Some v \<Rightarrow> v = ''none'')) fs
   \<and> ((\<forall>f\<in>set fs. acodec f \<noteq> None \<and> vcodec f \<noteq> None) \<longrightarrow>
        audio_formats fs = filter spec_audio_only fs)"
proof
  show "audio_formats fs =
     filter (\<lambda>f. (case acodec f of None \<Rightarrow> True | Some a \<Rightarrow> a \<noteq> ''none'') \<and>
                 (case vcodec f of None \<Rightarrow> False | Some v \<Rightarrow> v = ''none'')) fs"
    unfolding audio_formats_def
    by (rule filter_cong) (auto split: option.splits)
  show "(\<forall>f\<in>set fs. acodec f \<noteq> None \<and> vcodec f \<noteq> None) \<longrightarrow>
        audio_formats fs = filter spec_audio_only fs"
    unfolding audio_formats_def spec_audio_only_def
    by (auto intro!: filter_cong)
qed

theorem audio_formats_codec_tests_witness:
  "audio_formats [video_only, opus_low, muxed] = [opus_low]
   \<and> filter spec_audio_only [video_only, opus_low, muxed] = [opus_low]"
proof -
  have present: "\<forall>f\<in>set [video_only, opus_low, muxed]. acodec f \<noteq> None \<and> vcodec f \<noteq> None"
    by simp
  with audio_formats_codec_tests [of "[video_only, opus_low, muxed]"]
  have "audio_formats [video_only, opus_low, muxed] = filter spec_audio_only [video_only, opus_low, muxed]"
    by blast
  moreover have "filter spec_audio_only [video_only, opus_low, muxed] = [opus_low]"
    by (simp add: spec_audio_only_def)
  ultimately show ?thesis by simp
qed

text \<open>
  Claim C1 as written fails in both of its last two parts: a format with no video codec field
  is audio-only for the glossary and is discarded by the filter, and a format with no audio
  codec field (and video codec \<^verbatim>\<open>"none"\<close>) is not audio-only for the glossary and is kept.
\<close>

theorem audio_formats_missing_codec_counterexample:
  "audio_formats [no_vcodec_field] = []
   \<and> filter spec_audio_only [no_vcodec_field] = [no_vcodec_field]
   \<and> audio_formats [no_acodec_field] = [no_acodec_field]
   \<and> filter spec_audio_only [no_acodec_field] = []"
  by (simp add: audio_formats_def spec_audio_only_def)

text \<open>
  Claim C2. On a non-empty list of audio formats that carry a URL, the selector returns the
  URL of an entry whose quality (0 when the field is missing) is maximal in the list, and
  every entry before it has a strictly smaller quality: among the entries of maximal quality
  it is the first in the list's order.
\<close>

theorem select_url_first_maximum:
  assumes "afs \<noteq> []" and "\<forall>f\<in>set afs. format_url f \<noteq> None"
  shows "\<exists>i u. i < length afs \<and> format_url (afs ! i) = Some u \<and> select_url afs = Inr u \<and>
           (\<forall>j<length afs. quality_key (afs ! j) \<le> quality_key (afs ! i)) \<and>
           (\<forall>j<i. quality_key (afs ! j) < quality_key (afs ! i))"
proof -
  from py_sorted_reverse_first_max [OF assms(1), of quality_key]
  obtain i where i: "i < length afs" "hd (py_sorted_reverse quality_key afs) = afs ! i"
    "\<forall>j<length afs. quality_key (afs ! j) \<le> quality_key (afs ! i)"
    "\<forall>j<i. quality_key (afs ! j) < quality_key (afs ! i)" by blast
  have "py_sorted_reverse quality_key afs \<noteq> []"
    using assms(1) by (simp add: py_sorted_reverse_Nil)
  then have best: "best_audio afs = Inr (afs ! i)"
    using i(2) by (cases "py_sorted_reverse quality_key afs") (simp_all add: best_audio_def)
  from assms(2) i(1) obtain u where u: "format_url (afs ! i) = Some u"
    by (metis nth_mem not_None_eq)
  have "select_url afs = Inr u" by (simp add: select_url_def best u)
  with i u show ?thesis by blast
qed

theorem select_url_first_maximum_witness:
  "audio_formats [video_only, opus_low, opus_high, m4a_high] = [opus_low, opus_high, m4a_high]
   \<and> select_url [opus_low, opus_high, m4a_high] = Inr ''https://cdn.example/high.webm''"
proof -
  let ?afs = "[opus_low, opus_high, m4a_high]"
  have ne: "?afs \<noteq> []" by simp
  have urls: "\<forall>f\<in>set ?afs. format_url f \<noteq> None" by simp
  from select_url_first_maximum [OF ne urls] obtain i u where
    i: "i < length ?afs" and u: "format_url (?afs ! i) = Some u" and sel: "select_url ?afs = Inr u"
    and mx: "\<forall>j<length ?afs. quality_key (?afs ! j) \<le> quality_key (?afs ! i)"
    and fst: "\<forall>j<i. quality_key (?afs ! j) < quality_key (?afs ! i)"
    by blast
  from i have "i = 0 \<or> i = 1 \<or> i = 2" by auto
  moreover have "i \<noteq> 0"
  proof
    assume "i = 0"
    with mx [rule_format, of 1] show False by (simp add: quality_key_def)
  qed
  moreover have "i \<noteq> 2"
  proof
    assume "i = 2"
    with fst [rule_format, of 1] show False by (simp add: quality_key_def)
  qed
  ultimately have "i = 1" by blast
  with u sel have "select_url ?afs = Inr ''https://cdn.example/high.webm''" by simp
  then show ?thesis by (simp add: audio_formats_def)
qed

text \<open>
  Claim C3. An entry stored at time \<open>T\<close> is no hit for the cache check at any time
  \<open>now \<ge> T + CACHE_TIMEOUT\<close>: the resolver asks the provider and gives the result it would
  give were the entry not in the dictionary, though the entry is still there.
\<close>

theorem expired_entry_is_absent:
  assumes "song_cache s (cache_key vid) = Some (cached, T)" and "T + CACHE_TIMEOUT \<le> now"
  shows "cache_check (song_cache s) (cache_key vid) now = None
    \<and> fst (fetch_stream_url P now now' vid s) =
        fst (fetch_stream_url P now now' vid
               (s\<lparr>song_cache := (song_cache s)(cache_key vid := None)\<rparr>))
    \<and> provider_calls (snd (fetch_stream_url P now now' vid s)) =
        provider_calls s @ [watch_url vid]"
proof -
  have c1: "cache_check (song_cache s) (cache_key vid) now = None"
    using assms by (rule cache_check_expired)
  have c2: "cache_check (song_cache (s\<lparr>song_cache := (song_cache s)(cache_key vid := None)\<rparr>))
              (cache_key vid) now = None"
    by (simp add: cache_check_absent)
  show ?thesis
    by (simp add: c1 fetch_miss [OF c1] fetch_miss [OF c2] split: sum.splits)
qed

theorem expired_entry_is_absent_witness:
  "fetch_stream_url (returns_formats [opus_low]) 1800000000 1800000007 ''abc''
     \<lparr>song_cache = [cache_key ''abc'' \<mapsto> (''https://cdn.example/stale'', 0)], provider_calls = []\<rparr>
   = (Inr ''https://cdn.example/low.webm'',
      \<lparr>song_cache = [cache_key ''abc'' \<mapsto> (''https://cdn.example/low.webm'', 1800000007)],
        provider_calls = [watch_url ''abc'']\<rparr>)"
proof -
  let ?s = "\<lparr>song_cache = [cache_key ''abc'' \<mapsto> (''https://cdn.example/stale'', 0::int)], provider_calls = []\<rparr>"
  have entry: "song_cache ?s (cache_key ''abc'') = Some (''https://cdn.example/stale'', 0)" by simp
  have old: "0 + CACHE_TIMEOUT \<le> 1800000000" by (simp add: CACHE_TIMEOUT_def)
  from expired_entry_is_absent [OF entry old, of "returns_formats [opus_low]" 1800000007]
  have "cache_check (song_cache ?s) (cache_key ''abc'') 1800000000 = None" by blast
  then show ?thesis
    by (simp add: fetch_stream_url_def stream_url_of_def select_url_def best_audio_def
        py_sorted_reverse_def audio_formats_def Let_def)
qed

text \<open>
  Claim C4. A call of \<^verbatim>\<open>fetch_stream_url\<close> that fails, for whatever reason, leaves
  \<^verbatim>\<open>song_cache\<close> as it was.
\<close>

theorem failed_resolve_keeps_cache:
  assumes "fetch_stream_url P now now' vid s = (Inl err, s')"
  shows "song_cache s' = song_cache s"
  using assms
  by (auto simp: fetch_stream_url_def Let_def split: option.splits sum.splits)

theorem failed_resolve_keeps_cache_witness:
  "fetch_stream_url provider_down 0 5 ''abc'' empty_state
     = (Inl (HTTPException 404 (Of_exception (ProviderError ''network unreachable''))),
        \<lparr>song_cache = Map.empty, provider_calls = [watch_url ''abc'']\<rparr>)
   \<and> song_cache \<lparr>song_cache = Map.empty, provider_calls = [watch_url ''abc'']\<rparr> = song_cache empty_state"
proof -
  have failed: "fetch_stream_url provider_down 0 5 ''abc'' empty_state
     = (Inl (HTTPException 404 (Of_exception (ProviderError ''network unreachable''))),
        \<lparr>song_cache = Map.empty, provider_calls = [watch_url ''abc'']\<rparr>)"
    by (simp add: fetch_stream_url_def cache_check_def stream_url_of_def)
  from failed_resolve_keeps_cache [OF failed] failed show ?thesis by blast
qed

text \<open>
  Claim C5. After a successful resolve of a track the cache holds the returned URL under the
  track's key, with the time \<open>t2\<close> of this call's store when the provider was asked; every
  later resolve of the track whose cache check comes less than \<open>CACHE_TIMEOUT\<close> after that
  time returns the same URL and changes nothing, the log of provider calls included.
\<close>

theorem second_resolve_from_cache:
  assumes "fetch_stream_url P1 t1 t2 vid s = (Inr u, s1)"
  shows "\<exists>ts. song_cache s1 (cache_key vid) = Some (u, ts) \<and>
           (provider_calls s1 \<noteq> provider_calls s \<longrightarrow> ts = t2) \<and>
           (\<forall>P2 t3 t4. t3 - ts < CACHE_TIMEOUT \<longrightarrow>
              fetch_stream_url P2 t3 t4 vid s1 = (Inr u, s1))"
proof (cases "cache_check (song_cache s) (cache_key vid) t1")
  case None
  from assms fetch_miss [OF None, of P1 t2]
  have s1: "s1 = s\<lparr>provider_calls := provider_calls s @ [watch_url vid],
               song_cache := (song_cache s)(cache_key vid \<mapsto> (u, t2))\<rparr>"
    by (auto split: sum.splits)
  then have entry: "song_cache s1 (cache_key vid) = Some (u, t2)" by simp
  have "\<forall>P2 t3 t4. t3 - t2 < CACHE_TIMEOUT \<longrightarrow> fetch_stream_url P2 t3 t4 vid s1 = (Inr u, s1)"
    using cache_check_fresh [of "song_cache s1" "cache_key vid", OF entry] fetch_hit by blast
  with entry show ?thesis by blast
next
  case (Some c)
  from assms fetch_hit [OF Some, of P1 t2] have eq: "c = u" "s1 = s" by auto
  from cache_check_Some [OF Some] eq obtain ts where
    entry: "song_cache s1 (cache_key vid) = Some (u, ts)" by blast
  have "\<forall>P2 t3 t4. t3 - ts < CACHE_TIMEOUT \<longrightarrow> fetch_stream_url P2 t3 t4 vid s1 = (Inr u, s1)"
    using cache_check_fresh [of "song_cache s1" "cache_key vid", OF entry] fetch_hit by blast
  with entry eq(2) show ?thesis by blast
qed

theorem second_resolve_from_cache_witness:
  "fetch_stream_url (returns_formats [opus_low]) 0 5 ''abc'' empty_state
     = (Inr ''https://cdn.example/low.webm'',
        \<lparr>song_cache = [cache_key ''abc'' \<mapsto> (''https://cdn.example/low.webm'', 5)],
          provider_calls = [watch_url ''abc'']\<rparr>)
   \<and> fetch_stream_url provider_down 1800000004 1800000009 ''abc''
        \<lparr>song_cache = [cache_key ''abc'' \<mapsto> (''https://cdn.example/low.webm'', 5)],
          provider_calls = [watch_url ''abc'']\<rparr>
     = (Inr ''https://cdn.example/low.webm'',
        \<lparr>song_cache = [cache_key ''abc'' \<mapsto> (''https://cdn.example/low.webm'', 5)],
          provider_calls = [watch_url ''abc'']\<rparr>)"
proof -
  let ?s1 = "\<lparr>song_cache = [cache_key ''abc'' \<mapsto> (''https://cdn.example/low.webm'', 5::int)],
          provider_calls = [watch_url ''abc'']\<rparr>"
  have first: "fetch_stream_url (returns_formats [opus_low]) 0 5 ''abc'' empty_state
     = (Inr ''https://cdn.example/low.webm'', ?s1)"
    by (simp add: fetch_stream_url_def cache_check_def stream_url_of_def select_url_def
        best_audio_def py_sorted_reverse_def audio_formats_def Let_def)
  from second_resolve_from_cache [OF first] obtain ts where
    called: "provider_calls ?s1 \<noteq> provider_calls empty_state \<longrightarrow> ts = 5"
    and again: "\<forall>P2 t3 t4. t3 - ts < CACHE_TIMEOUT \<longrightarrow>
       fetch_stream_url P2 t3 t4 ''abc'' ?s1 = (Inr ''https://cdn.example/low.webm'', ?s1)"
    by blast
  from called have ts: "ts = 5" by simp
  have "1800000004 - ts < CACHE_TIMEOUT" by (simp add: ts CACHE_TIMEOUT_def)
  with again have "fetch_stream_url provider_down 1800000004 1800000009 ''abc'' ?s1
     = (Inr ''https://cdn.example/low.webm'', ?s1)" by blast
  with first show ?thesis by blast
qed






section \<open>Auxiliary facts on the loops\<close>

lemma str_field_Inr: "str_field v = Inr s \<longleftrightarrow> v = PStr s"
  by (cases v) auto

lemma make_song_Inr:
  assumes "make_song e vid = Inr sg"
  shows "vid = PStr (video_id sg)"
    and "url sg = watch_url (video_id sg)"
    and "duration sg = py_str (dict_get e ''duration'' (PStr ''0''))"
  using assms
  by (auto simp: make_song_def str_field_Inr split: sum.splits)

lemma songs_loop_acc:
  "songs_loop es acc = (case songs_loop es [] of Inl ex \<Rightarrow> Inl ex | Inr sgs \<Rightarrow> Inr (acc @ sgs))"
proof (induction es arbitrary: acc)
  case Nil
  then show ?case by simp
next
  case (Cons entry es)
  show ?case
  proof (cases entry)
    case None
    then show ?thesis using Cons.IH [of acc] by simp
  next
    case (Some e)
    show ?thesis
    proof (cases "e = [] \<or> \<not> truthy (dict_get e ''id'' (PStr ''''))")
      case True
      then show ?thesis using Some Cons.IH [of acc] by auto
    next
      case False
      show ?thesis
      proof (cases "make_song e (dict_get e ''id'' (PStr ''''))")
        case (Inl ex)
        then show ?thesis using Some False by simp
      next
        case (Inr sg)
        then show ?thesis
          using Some False Cons.IH [of "acc @ [sg]"] Cons.IH [of "[sg]"]
          by (auto split: sum.splits)
      qed
    qed
  qed
qed

lemma songs_loop_kept:
  "songs_loop es [] = Inr sgs \<Longrightarrow>
     map video_id sgs = map entry_id (filter has_id es) \<and>
     (\<forall>sg\<in>set sgs. url sg = watch_url (video_id sg))"
proof (induction es arbitrary: sgs)
  case Nil
  then show ?case by simp
next
  case (Cons entry es)
  show ?case
  proof (cases "has_id entry")
    case False
    then have "songs_loop (entry # es) [] = songs_loop es []"
      by (auto simp: has_id_def split: option.splits)
    with Cons.prems have "songs_loop es [] = Inr sgs" by simp
    from Cons.IH [OF this] False show ?thesis by simp
  next
    case True
    then obtain e where e: "entry = Some e" "e \<noteq> []" "truthy (dict_get e ''id'' (PStr ''''))"
      by (auto simp: has_id_def split: option.splits)
    from Cons.prems e obtain sg where sg: "make_song e (dict_get e ''id'' (PStr '''')) = Inr sg"
      and rest: "songs_loop es [sg] = Inr sgs"
      by (auto split: sum.splits)
    from rest songs_loop_acc [of es "[sg]"] obtain tl where
      tl: "songs_loop es [] = Inr tl" "sgs = sg # tl"
      by (auto split: sum.splits)
    from make_song_Inr [OF sg] have "entry_id entry = video_id sg"
      "url sg = watch_url (video_id sg)"
      by (simp_all add: entry_id_def e)
    with Cons.IH [OF tl(1)] tl(2) True show ?thesis by simp
  qed
qed

lemma make_song_well_typed:
  assumes "well_typed (Some e)" "truthy (dict_get e ''id'' (PStr ''''))"
  shows "\<exists>sg. make_song e (dict_get e ''id'' (PStr '''')) = Inr sg"
proof -
  have a: "\<exists>s. dict_get e ''id'' (PStr '''') = PStr s"
    using assms(1) by (auto simp: well_typed_def string_or_absent_def dict_get_def split: option.splits pyval.splits)
  have b: "\<exists>s. dict_get e ''title'' (PStr '''') = PStr s"
    using assms(1) by (auto simp: well_typed_def string_or_absent_def dict_get_def split: option.splits pyval.splits)
  have c: "\<exists>s. dict_get e ''thumbnail'' (PStr '''') = PStr s"
    using assms(1) by (auto simp: well_typed_def string_or_absent_def dict_get_def split: option.splits pyval.splits)
  from a b c show ?thesis
    by (auto simp: make_song_def py_or_def)
qed

lemma songs_loop_well_typed:
  "\<forall>entry\<in>set es. well_typed entry \<Longrightarrow> \<exists>sgs. songs_loop es [] = Inr sgs"
proof (induction es)
  case Nil
  then show ?case by simp
next
  case (Cons entry es)
  then obtain tl where tl: "songs_loop es [] = Inr tl" by auto
  show ?case
  proof (cases "has_id entry")
    case False
    then have "songs_loop (entry # es) [] = songs_loop es []"
      by (auto simp: has_id_def split: option.splits)
    with tl show ?thesis by simp
  next
    case True
    then obtain e where e: "entry = Some e" "e \<noteq> []" "truthy (dict_get e ''id'' (PStr ''''))"
      by (auto simp: has_id_def split: option.splits)
    from Cons.prems e have "well_typed (Some e)" by simp
    from make_song_well_typed [OF this e(3)] obtain sg where
      sg: "make_song e (dict_get e ''id'' (PStr '''')) = Inr sg" by blast
    have "songs_loop (entry # es) [] = songs_loop es [sg]" using e sg by simp
    also have "\<dots> = Inr (sg # tl)" using songs_loop_acc [of es "[sg]"] tl by simp
    finally show ?thesis by blast
  qed
qed

lemma artist_loop_acc:
  "artist_loop P us acc = acc @ artist_loop P us []"
proof (induction us arbitrary: acc)
  case Nil
  then show ?case by simp
next
  case (Cons u us)
  show ?case
    using Cons.IH [of acc] Cons.IH [of "acc @ [r]" for r] Cons.IH [of "[r]" for r]
    by (auto split: sum.splits option.splits)
qed

lemma artist_loop_append:
  "artist_loop P (us @ vs) [] = artist_loop P us [] @ artist_loop P vs []"
proof (induction us)
  case Nil
  then show ?case by simp
next
  case (Cons u us)
  show ?case
  proof (cases "artist_songs P u")
    case (Inl e)
    then show ?thesis using Cons by simp
  next
    case (Inr ro)
    show ?thesis
    proof (cases ro)
      case None
      then show ?thesis using Inr Cons by simp
    next
      case (Some r)
      have "artist_loop P ((u # us) @ vs) [] = [r] @ artist_loop P (us @ vs) []"
        using Inr Some artist_loop_acc [of P "us @ vs" "[r]"] by simp
      moreover have "artist_loop P (u # us) [] = [r] @ artist_loop P us []"
        using Inr Some artist_loop_acc [of P us "[r]"] by simp
      ultimately show ?thesis using Cons by simp
    qed
  qed
qed

lemma artist_songs_raises: "P u = Inl e \<Longrightarrow> artist_songs P u = Inl e"
  by (simp add: artist_songs_def)

lemma artist_songs_Some:
  assumes "artist_songs P u = Inr (Some b)"
  shows "artist_url b = u"
    and "\<exists>result. P u = Inr (Some result) \<and>
           map video_id (songs b) = map entry_id (filter has_id (entries_of result))"
proof -
  from assms obtain result sgs name where
    r: "P u = Inr (Some result)"
    and sgs: "(case entries result of None \<Rightarrow> Inr [] | Some es \<Rightarrow> songs_loop es []) = Inr sgs"
    and b: "b = \<lparr>artist_url = u, artist_name = name, songs = sgs\<rparr>"
    by (auto simp: artist_songs_def split: sum.splits option.splits)
  show "artist_url b = u" using b by simp
  have "map video_id sgs = map entry_id (filter has_id (entries_of result))"
  proof (cases "entries result")
    case None
    then show ?thesis using sgs by (simp add: entries_of_def)
  next
    case (Some es)
    then show ?thesis using sgs songs_loop_kept [of es sgs] by (simp add: entries_of_def)
  qed
  with r b show "\<exists>result. P u = Inr (Some result) \<and>
           map video_id (songs b) = map entry_id (filter has_id (entries_of result))"
    by auto
qed

lemma artist_loop_Cons:
  "artist_loop P (u # us) [] =
     (case artist_songs P u of Inr (Some r) \<Rightarrow> r # artist_loop P us [] | _ \<Rightarrow> artist_loop P us [])"
  using artist_loop_acc [of P us "[r]" for r]
  by (auto split: sum.splits option.splits)

lemma artist_loop_set:
  "b \<in> set (artist_loop P us []) \<Longrightarrow> \<exists>u\<in>set us. artist_songs P u = Inr (Some b)"
proof (induction us)
  case Nil
  then show ?case by simp
next
  case (Cons u us)
  then show ?case
    by (auto simp: artist_loop_Cons simp del: artist_loop.simps split: sum.splits option.splits)
qed

lemma artist_loop_urls:
  "map artist_url (artist_loop P us []) = filter (yields_batch P) us"
proof (induction us)
  case Nil
  then show ?case by simp
next
  case (Cons u us)
  then show ?case
    using artist_songs_Some(1) [of P u]
    by (auto simp: artist_loop_Cons yields_batch_def simp del: artist_loop.simps
        split: sum.splits option.splits)
qed

lemmas eval_songs = returns_entries_def three_sources_def make_song_def dict_get_def py_or_def
  watch_url_def str_int_def digit_def

section \<open>The claims on aggregation and search\<close>

text \<open>
  Claim C6. When the provider raises for the locator \<open>u\<close>, the loop over the artists goes on
  past it: the responses for a list with \<open>u\<close> in it are those of the locators before \<open>u\<close>
  followed by those of the locators after it, with nothing for \<open>u\<close>, and the exception
  reaches no caller. The endpoint returns these responses; its one error is the 404 of an
  empty list of responses. With three locators of which the second raises and the other two
  give a response, the endpoint returns exactly these two responses.
\<close>

theorem failing_source_is_skipped:
  assumes "P u = Inl e"
  shows "artist_loop P (us @ u # vs) [] = artist_loop P us [] @ artist_loop P vs []
       \<and> get_artist_songs_of (us @ u # vs) P =
           (if artist_loop P us [] @ artist_loop P vs [] = []
            then Inl (HTTPException 404 (Message ''No artists or songs found''))
            else Inr (artist_loop P us [] @ artist_loop P vs []))
       \<and> (\<forall>u1 u3 b1 b3. artist_songs P u1 = Inr (Some b1) \<longrightarrow> artist_songs P u3 = Inr (Some b3) \<longrightarrow>
            get_artist_songs_of [u1, u, u3] P = Inr [b1, b3])"
proof -
  have skip: "artist_loop P (u # ws) [] = artist_loop P ws []" for ws
    using artist_songs_raises [of P u e, OF assms] by simp
  have split: "artist_loop P (us @ u # vs) [] = artist_loop P us [] @ artist_loop P vs []"
    using artist_loop_append [of P us "u # vs"] skip [of vs] by simp
  have three: "get_artist_songs_of [u1, u, u3] P = Inr [b1, b3]"
    if "artist_songs P u1 = Inr (Some b1)" "artist_songs P u3 = Inr (Some b3)" for u1 u3 b1 b3
  proof -
    have "artist_loop P [u1, u, u3] [] = [b1, b3]"
      using that artist_songs_raises [of P u e, OF assms] by simp
    then show ?thesis by (simp add: get_artist_songs_of_def)
  qed
  from split three show ?thesis by (simp add: get_artist_songs_of_def)
qed

theorem failing_source_is_skipped_witness:
  "artist_loop three_sources [''source-1'', ''source-2'', ''source-3''] []
     = [\<lparr>artist_url = ''source-1'', artist_name = ''One'', songs = [first_song]\<rparr>,
        \<lparr>artist_url = ''source-3'', artist_name = ''Unknown Artist'', songs = [second_song, first_song]\<rparr>]
   \<and> get_artist_songs_of [''source-1'', ''source-2'', ''source-3''] three_sources
     = Inr [\<lparr>artist_url = ''source-1'', artist_name = ''One'', songs = [first_song]\<rparr>,
            \<lparr>artist_url = ''source-3'', artist_name = ''Unknown Artist'', songs = [second_song, first_song]\<rparr>]"
proof -
  have raises: "three_sources ''source-2'' = Inl (ProviderError ''timed out'')"
    by (simp add: three_sources_def)
  have one: "artist_songs three_sources ''source-1''
      = Inr (Some \<lparr>artist_url = ''source-1'', artist_name = ''One'', songs = [first_song]\<rparr>)"
    by (simp add: artist_songs_def eval_songs)
  have three: "artist_songs three_sources ''source-3''
      = Inr (Some \<lparr>artist_url = ''source-3'', artist_name = ''Unknown Artist'', songs = [second_song, first_song]\<rparr>)"
    by (simp add: artist_songs_def eval_songs)
  from failing_source_is_skipped [of three_sources "''source-2''" _ "[''source-1'']" "[''source-3'']", OF raises]
  have "artist_loop three_sources ([''source-1''] @ ''source-2'' # [''source-3'']) []
      = artist_loop three_sources [''source-1''] [] @ artist_loop three_sources [''source-3''] []"
    and "get_artist_songs_of [''source-1'', ''source-2'', ''source-3''] three_sources
      = Inr [\<lparr>artist_url = ''source-1'', artist_name = ''One'', songs = [first_song]\<rparr>,
            \<lparr>artist_url = ''source-3'', artist_name = ''Unknown Artist'', songs = [second_song, first_song]\<rparr>]"
    using one three by blast+
  then show ?thesis using one three by simp
qed

text \<open>
  Claim C8. When the provider returns a list of entries for the search, the tracks that
  \<^verbatim>\<open>search_songs\<close> returns are, in order, those of the entries that are not null or empty and
  have an id, and the URL of each is \<^verbatim>\<open>https://music.youtube.com/watch?v=\<close> followed by the id of its
  entry. When the id, title and thumbnail of every entry are strings or absent, the search
  does return, with one track for each such entry.
\<close>

theorem search_songs_keeps_entries_with_id:
  assumes "P (''ytsearch10:'' @ query) = Inr (Some results)" and "entries results = Some es"
  shows "(\<forall>sgs. search_songs P query = Inr sgs \<longrightarrow>
            map video_id sgs = map entry_id (filter has_id es) \<and>
            map url sgs = map (\<lambda>entry. ''https://music.youtube.com/watch?v='' @ entry_id entry) (filter has_id es))
       \<and> ((\<forall>entry\<in>set es. well_typed entry) \<longrightarrow>
            (\<exists>sgs. search_songs P query = Inr sgs \<and> length sgs = length (filter has_id es)))"
proof -
  have run: "search_songs P query =
      (case songs_loop es [] of Inl ex \<Rightarrow> Inl (HTTPException 500 (Of_exception ex)) | Inr sgs \<Rightarrow> Inr sgs)"
    using assms by (simp add: search_songs_def)
  have kept: "map video_id sgs = map entry_id (filter has_id es) \<and>
            map url sgs = map (\<lambda>entry. ''https://music.youtube.com/watch?v='' @ entry_id entry) (filter has_id es)"
    if "search_songs P query = Inr sgs" for sgs
  proof -
    from that run have loop: "songs_loop es [] = Inr sgs" by (auto split: sum.splits)
    from songs_loop_kept [OF loop] have ids: "map video_id sgs = map entry_id (filter has_id es)"
      and urls: "\<forall>sg\<in>set sgs. url sg = watch_url (video_id sg)" by blast+
    from urls have "map url sgs = map (\<lambda>v. ''https://music.youtube.com/watch?v='' @ v) (map video_id sgs)"
      by (simp add: watch_url_def)
    with ids show ?thesis by (simp add: comp_def)
  qed
  have total: "\<exists>sgs. search_songs P query = Inr sgs \<and> length sgs = length (filter has_id es)"
    if "\<forall>entry\<in>set es. well_typed entry"
  proof -
    from songs_loop_well_typed [OF that] obtain sgs where loop: "songs_loop es [] = Inr sgs" by blast
    then have s: "search_songs P query = Inr sgs" using run by simp
    from kept [OF s] have "length (map video_id sgs) = length (map entry_id (filter has_id es))"
      by simp
    with s show ?thesis by simp
  qed
  from kept total show ?thesis by blast
qed

theorem search_songs_keeps_entries_with_id_witness:
  "\<exists>sgs. search_songs (returns_entries [first_track, entry_without_id, second_track]) ''bernadya'' = Inr sgs
     \<and> length sgs = 2
     \<and> map url sgs = [''https://music.youtube.com/watch?v=dQw4w9WgXcQ'',
                       ''https://music.youtube.com/watch?v=9bZkp7q19f0'']"
proof -
  let ?es = "[first_track, entry_without_id, second_track]"
  let ?P = "returns_entries ?es"
  have ret: "?P (''ytsearch10:'' @ ''bernadya'') = Inr (Some \<lparr>channel = None, entries = Some ?es\<rparr>)"
    by (simp add: returns_entries_def)
  have ents: "entries \<lparr>channel = None, entries = Some ?es\<rparr> = Some ?es" by simp
  have typed: "\<forall>entry\<in>set ?es. well_typed entry"
    by (simp add: well_typed_def string_or_absent_def)
  have kept: "filter has_id ?es = [first_track, second_track]"
    by (simp add: has_id_def dict_get_def)
  have ids: "map (\<lambda>entry. ''https://music.youtube.com/watch?v='' @ entry_id entry) [first_track, second_track]
      = [''https://music.youtube.com/watch?v=dQw4w9WgXcQ'', ''https://music.youtube.com/watch?v=9bZkp7q19f0'']"
    by (simp add: entry_id_def dict_get_def)
  note inst = search_songs_keeps_entries_with_id [of ?P "''bernadya''", OF ret ents]
  from inst [THEN conjunct2, THEN mp, OF typed] obtain sgs where
    s: "search_songs ?P ''bernadya'' = Inr sgs" and n: "length sgs = length (filter has_id ?es)"
    by (elim exE conjE)
  from inst [THEN conjunct1, THEN spec, THEN mp, OF s]
  have u: "map url sgs = map (\<lambda>entry. ''https://music.youtube.com/watch?v='' @ entry_id entry) (filter has_id ?es)"
    by (rule conjunct2)
  have "length sgs = 2" using n unfolding kept by simp
  moreover have "map url sgs = [''https://music.youtube.com/watch?v=dQw4w9WgXcQ'',
                       ''https://music.youtube.com/watch?v=9bZkp7q19f0'']"
    using u unfolding kept ids .
  ultimately show ?thesis using s by (intro exI conjI)
qed

text \<open>
  Claim C9 against the code. An entry whose \<^verbatim>\<open>duration\<close> key holds \<^verbatim>\<open>None\<close> carries no
  duration value, and the claim gives its track the duration \<^verbatim>\<open>"0"\<close>. The default of
  \<^verbatim>\<open>entry.get('duration', '0')\<close> only covers a missing key, so \<^verbatim>\<open>str(None)\<close> is taken: the
  track's duration is the text \<^verbatim>\<open>None\<close>, in the search and in the aggregation alike.
\<close>

theorem null_duration_is_rendered_as_None:
  "search_songs (returns_entries [entry_with_null_duration]) ''q''
     = Inr [\<lparr>title = ''T'', url = ''https://music.youtube.com/watch?v=abc'',
             thumbnail = ''https://i.ytimg.com/vi/abc/default.jpg'',
             duration = ''None'', video_id = ''abc''\<rparr>]
   \<and> get_artist_songs_of [''source''] (returns_entries [entry_with_null_duration])
     = Inr [\<lparr>artist_url = ''source'', artist_name = ''Unknown Artist'',
             songs = [\<lparr>title = ''T'', url = ''https://music.youtube.com/watch?v=abc'',
                       thumbnail = ''https://i.ytimg.com/vi/abc/default.jpg'',
                       duration = ''None'', video_id = ''abc''\<rparr>]\<rparr>]"
  by (simp add: search_songs_def get_artist_songs_of_def artist_songs_def eval_songs)

text \<open>
  Claim C10. The responses of the aggregation are in the order of their locators: their
  locators are the configured list restricted to the locators that yield a batch. The tracks
  of each response are in the provider's order: their ids are those of the kept entries of
  the provider's listing for that locator, in the listing's order.
\<close>

theorem aggregation_keeps_order:
  "map artist_url (artist_loop P urls []) = filter (yields_batch P) urls
   \<and> (\<forall>b\<in>set (artist_loop P urls []).
        \<exists>result. P (artist_url b) = Inr (Some result) \<and>
          map video_id (songs b) = map entry_id (filter has_id (entries_of result)))"
proof
  show "map artist_url (artist_loop P urls []) = filter (yields_batch P) urls"
    by (rule artist_loop_urls)
  show "\<forall>b\<in>set (artist_loop P urls []).
        \<exists>result. P (artist_url b) = Inr (Some result) \<and>
          map video_id (songs b) = map entry_id (filter has_id (entries_of result))"
  proof
    fix b assume "b \<in> set (artist_loop P urls [])"
    from artist_loop_set [OF this] obtain u where u: "artist_songs P u = Inr (Some b)" by blast
    from artist_songs_Some [OF u] show "\<exists>result. P (artist_url b) = Inr (Some result) \<and>
          map video_id (songs b) = map entry_id (filter has_id (entries_of result))"
      by simp
  qed
qed

theorem aggregation_keeps_order_witness:
  "map artist_url (artist_loop three_sources [''source-3'', ''source-2'', ''source-1'', ''source-3''] [])
     = [''source-3'', ''source-1'', ''source-3'']
   \<and> map (\<lambda>b. map video_id (songs b)) (artist_loop three_sources [''source-3'', ''source-2'', ''source-1'', ''source-3''] [])
     = [[''9bZkp7q19f0'', ''dQw4w9WgXcQ''], [''dQw4w9WgXcQ''], [''9bZkp7q19f0'', ''dQw4w9WgXcQ'']]"
proof -
  let ?urls = "[''source-3'', ''source-2'', ''source-1'', ''source-3'']"
  have y: "filter (yields_batch three_sources) ?urls = [''source-3'', ''source-1'', ''source-3'']"
    by (simp add: yields_batch_def artist_songs_def eval_songs)
  from aggregation_keeps_order [of three_sources ?urls] y
  have order: "map artist_url (artist_loop three_sources ?urls []) = [''source-3'', ''source-1'', ''source-3'']"
    by simp
  have "map (\<lambda>b. map video_id (songs b)) (artist_loop three_sources ?urls [])
     = [[''9bZkp7q19f0'', ''dQw4w9WgXcQ''], [''dQw4w9WgXcQ''], [''9bZkp7q19f0'', ''dQw4w9WgXcQ'']]"
    by (simp add: artist_songs_def eval_songs)
  with order show ?thesis by simp
qed

end
